theory Spec2Isabelle
  imports
    Complex_Main
    "HOL-Library.Sublist"
    "HOL-Library.Char_ord"
    "HOL-Library.List_Lexorder"
    "HOL-Library.Multiset"
begin

section \<open>Data model of the user flow analyzer\<close>

text \<open>
  A record of the input is one JSON object of the line-delimited input. The four required
  fields are strings; a required field that is absent or \<open>null\<close> is \<open>None\<close>. The optional
  keys \<open>css\<close> and \<open>text\<close> are absent (\<open>None\<close>) or hold a JSON value: a string, \<open>null\<close>, or
  something else (a number, a boolean, an array, an object). Validation looks at the
  required fields only, so all of these reach the analysis. Strings are byte strings
  (ASCII, or UTF-8 for the rest), whose lexicographic order is the order Python gives its
  \<open>str\<close> values.
\<close>

datatype jvalue = JNull | JStr string | JOther

record raw_event =
  raw_user_id :: "string option"
  raw_session_id :: "string option"
  raw_event_time :: "string option"
  raw_path :: "string option"
  raw_css :: "jvalue option"
  raw_text :: "jvalue option"

text \<open>An event that passed validation: the required keys are there.\<close>

record event =
  user_id :: string
  session_id :: string
  event_time :: string
  path :: string
  css :: "jvalue option"
  ev_text :: "jvalue option"

text \<open>
  A \<open>datetime\<close> of the Python library is either naive (no UTC offset in the text: a wall
  clock reading) or aware (with an offset: an instant). Both are counted in microseconds.
  Subtracting a naive and an aware value raises \<open>TypeError\<close>. A value that is not a string
  has no method \<open>lower\<close>: calling it raises \<open>AttributeError\<close>.
\<close>

datatype datetime = Naive int | Aware int

datatype error = TypeError | AttributeError

type_synonym iso_parser = "string \<Rightarrow> datetime option"

fun dt_sub :: "datetime \<Rightarrow> datetime \<Rightarrow> error + int" where
  "dt_sub (Naive a) (Naive b) = Inr (a - b)"
| "dt_sub (Aware a) (Aware b) = Inr (a - b)"
| "dt_sub _ _ = Inl TypeError"

definition total_seconds :: "int \<Rightarrow> real" where
  "total_seconds us = real_of_int us / 1000000"

text \<open>\<open>s.replace('Z', '+00:00')\<close> replaces every \<open>Z\<close> of the string.\<close>

definition replace_Z :: "string \<Rightarrow> string" where
  "replace_Z s = concat (map (\<lambda>c. if c = CHR ''Z'' then ''+00:00'' else [c]) s)"

text \<open>
  \<open>datetime.fromisoformat\<close> belongs to the Python library, not to the repository: the
  functions below take it as the parameter \<open>fromiso\<close>, \<open>None\<close> standing for its \<open>ValueError\<close>.
\<close>

definition parse_time :: "iso_parser \<Rightarrow> string \<Rightarrow> datetime option" where
  "parse_time fromiso s = fromiso (replace_Z s)"

section \<open>Validation and loading\<close>

definition is_valid_event :: "iso_parser \<Rightarrow> raw_event \<Rightarrow> bool" where
  "is_valid_event fromiso r =
     (if raw_user_id r = None then False
      else if raw_session_id r = None then False
      else if raw_event_time r = None then False
      else if raw_path r = None then False
      else (case raw_event_time r of
              None \<Rightarrow> False
            | Some t \<Rightarrow> (case parse_time fromiso t of None \<Rightarrow> False | Some _ \<Rightarrow> True)))"

text \<open>The event kept for a valid record (the same dictionary, in the source).\<close>

definition load_event :: "iso_parser \<Rightarrow> raw_event \<Rightarrow> event option" where
  "load_event fromiso r =
     (if is_valid_event fromiso r then
        (case (raw_user_id r, raw_session_id r, raw_event_time r, raw_path r) of
           (Some u, Some s, Some t, Some p) \<Rightarrow>
             Some \<lparr>user_id = u, session_id = s, event_time = t, path = p,
                   css = raw_css r, ev_text = raw_text r\<rparr>
         | _ \<Rightarrow> None)
      else None)"

text \<open>
  A dictionary is an association list in insertion order, the order in which Python
  iterates over it. \<open>user_sessions\<close> maps a user to the dictionary of that user's sessions.
\<close>

type_synonym sessions = "(string \<times> event list) list"
type_synonym grouped = "(string \<times> sessions) list"

text \<open>\<open>d[k] = f (d[k])\<close> on a \<open>defaultdict\<close> (or \<open>Counter\<close>) whose missing values are \<open>dflt\<close>.\<close>

fun dd_update :: "string \<Rightarrow> 'v \<Rightarrow> ('v \<Rightarrow> 'v) \<Rightarrow> (string \<times> 'v) list \<Rightarrow> (string \<times> 'v) list" where
  "dd_update k dflt f [] = [(k, f dflt)]"
| "dd_update k dflt f ((k', v) # kvs) =
     (if k' = k then (k', f v) # kvs else (k', v) # dd_update k dflt f kvs)"

section \<open>Findings\<close>

record gap =
  gap_user_id :: string
  gap_session_id :: string
  gap_minutes :: real
  stuck_on_page :: string
  next_page :: string

record error_info =
  err_event :: event
  error_type :: string
  err_text :: jvalue
  err_css :: jvalue

record unusual_session =
  un_user_id :: string
  un_session_id :: string
  event_count :: nat
  duration_minutes :: real

text \<open>The values that the \<open>details\<close> dictionary of a finding holds.\<close>

datatype detail =
    VNat nat
  | VStr string
  | VCounts "(string \<times> nat) list"
  | VPages "(string \<times> string) list"
  | VPageGaps "(string \<times> gap list) list"
  | VGaps "gap list"
  | VPageErrors "(string \<times> error_info list) list"
  | VSessions "unusual_session list"

record finding =
  title :: string
  description :: string
  severity :: "string option"
  details :: "(string \<times> detail) list"

text \<open>The state of a \<open>UserFlowAnalyzer\<close>.\<close>

record analyzer =
  events :: "event list"
  user_sessions :: grouped
  flows :: "finding list"
  anomalies :: "finding list"

definition new_analyzer :: analyzer where
  "new_analyzer = \<lparr>events = [], user_sessions = [], flows = [], anomalies = []\<rparr>"

text \<open>
  \<open>load_data\<close>, from the decoded lines of the response: the valid records are appended to
  \<open>events\<close>.
\<close>

definition load_data :: "iso_parser \<Rightarrow> raw_event list \<Rightarrow> analyzer \<Rightarrow> analyzer" where
  "load_data fromiso raws a = a\<lparr>events := events a @ List.map_filter (load_event fromiso) raws\<rparr>"

section \<open>Grouping\<close>

text \<open>\<open>self.user_sessions[user_id][session_id].append(event)\<close>\<close>

definition add_event :: "grouped \<Rightarrow> event \<Rightarrow> grouped" where
  "add_event g e =
     dd_update (user_id e) [] (dd_update (session_id e) [] (\<lambda>evs. evs @ [e])) g"

text \<open>
  \<open>self.events.sort(key=lambda x: x['event_time'])\<close>: a stable sort on the \<open>event_time\<close>
  strings, compared as strings.
\<close>

definition sort_events :: "event list \<Rightarrow> event list" where
  "sort_events evs = sort_key event_time evs"

definition process_events :: "analyzer \<Rightarrow> analyzer" where
  "process_events a =
     (if events a = [] then a
      else a\<lparr>events := sort_events (events a),
             user_sessions := foldl add_event (user_sessions a) (sort_events (events a))\<rparr>)"

text \<open>
  The sessions in the order of the nested loops
  \<open>for user_id, sessions in ...items(): for session_id, events in sessions.items()\<close>.
\<close>

definition session_items :: "grouped \<Rightarrow> (string \<times> string \<times> event list) list" where
  "session_items g = concat (map (\<lambda>(u, ss). map (\<lambda>(s, evs). (u, s, evs)) ss) g)"

definition session_events :: "grouped \<Rightarrow> event list list" where
  "session_events g = map (\<lambda>(u, s, evs). evs) (session_items g)"

section \<open>Numbers and text of the Python library\<close>

text \<open>
  Python's floats are taken as real numbers: \<open>statistics.mean\<close>, \<open>statistics.stdev\<close> and
  the \<open>.1f\<close> format are the exact mean, the exact sample standard deviation and the
  rounding to one decimal (half to even). A float is the binary double next to the real
  number, so for a value on a decimal tie that no double holds (1.05 is held slightly
  above) the code prints another last digit than \<open>fmt1\<close> gives. The statements below that
  mention a formatted number say where it stands, not which digits it has.
\<close>

definition mean :: "real list \<Rightarrow> real" where
  "mean xs = sum_list xs / real (length xs)"

definition stdev :: "real list \<Rightarrow> real" where
  "stdev xs = sqrt (sum_list (map (\<lambda>x. (x - mean xs)\<^sup>2) xs) / (real (length xs) - 1))"

fun str_nat :: "nat \<Rightarrow> string" where
  "str_nat n =
     (if n < 10 then [''0123456789'' ! n] else str_nat (n div 10) @ [''0123456789'' ! (n mod 10)])"

declare str_nat.simps [simp del]

definition round_half_even :: "real \<Rightarrow> int" where
  "round_half_even x =
     (let f = \<lfloor>x\<rfloor> in
      if x - of_int f < 1 / 2 then f
      else if 1 / 2 < x - of_int f then f + 1
      else if even f then f else f + 1)"

definition fmt1 :: "real \<Rightarrow> string" where
  "fmt1 x =
     (let n = nat (round_half_even (\<bar>x\<bar> * 10)) in
      (if x < 0 then ''-'' else []) @ str_nat (n div 10) @ ''.'' @ str_nat (n mod 10))"

text \<open>\<open>str.lower()\<close> on ASCII text: the letters \<open>A\<close> to \<open>Z\<close> change, nothing else does.\<close>

definition lower_char :: "char \<Rightarrow> char" where
  "lower_char c =
     (case map_of (zip ''ABCDEFGHIJKLMNOPQRSTUVWXYZ'' ''abcdefghijklmnopqrstuvwxyz'') c of
        None \<Rightarrow> c
      | Some l \<Rightarrow> l)"

definition lower :: "string \<Rightarrow> string" where
  "lower s = map lower_char s"

fun join :: "string \<Rightarrow> string list \<Rightarrow> string" where
  "join sep [] = []"
| "join sep [x] = x"
| "join sep (x # y # ys) = x @ sep @ join sep (y # ys)"

text \<open>The separator \<open>' -> '\<close> of the flow patterns, whose arrow is U+2192 (three bytes).\<close>

definition arrow :: string where
  "arrow = [CHR 0x20, CHR 0xE2, CHR 0x86, CHR 0x92, CHR 0x20]"

text \<open>\<open>Counter(xs)\<close> and \<open>c[k] += 1\<close>: the keys stay in the order of their first insertion.\<close>

definition counter_incr :: "(string \<times> nat) list \<Rightarrow> string \<Rightarrow> (string \<times> nat) list" where
  "counter_incr c k = dd_update k 0 Suc c"

definition Counter :: "string list \<Rightarrow> (string \<times> nat) list" where
  "Counter xs = foldl counter_incr [] xs"

text \<open>
  \<open>c.most_common(n)\<close> is \<open>sorted(c.items(), key=count, reverse=True)[:n]\<close>; Python's sort is
  stable, also when reversed: items of equal count stay in the order of the dictionary.
\<close>

definition most_common :: "nat \<Rightarrow> (string \<times> nat) list \<Rightarrow> (string \<times> nat) list" where
  "most_common n c = take n (sort_key (\<lambda>kv. - int (snd kv)) c)"

text \<open>An optional string, or a default.\<close>

definition get_or :: "string \<Rightarrow> string option \<Rightarrow> string" where
  "get_or dflt v = (case v of None \<Rightarrow> dflt | Some s \<Rightarrow> s)"

text \<open>
  \<open>event.get(key, dflt)\<close> for the optional keys: the default stands in for an absent key
  only, a \<open>null\<close> that is present is returned as it is. Then \<open>.lower()\<close>, which only a
  string has.
\<close>

definition get_value :: "string \<Rightarrow> jvalue option \<Rightarrow> jvalue" where
  "get_value dflt v = (case v of None \<Rightarrow> JStr dflt | Some x \<Rightarrow> x)"

fun lower_value :: "jvalue \<Rightarrow> error + string" where
  "lower_value (JStr s) = Inr (lower s)"
| "lower_value _ = Inl AttributeError"

section \<open>Checkout classification\<close>

text \<open>The second loop of \<open>_is_successful_checkout\<close>, over the checkout events.\<close>

fun check_checkout_events :: "event list \<Rightarrow> error + bool" where
  "check_checkout_events [] = Inr False"
| "check_checkout_events (e # es) =
     (case lower_value (get_value [] (css e)) of
        Inl err \<Rightarrow> Inl err
      | Inr c \<Rightarrow>
          (case lower_value (get_value [] (ev_text e)) of
             Inl err \<Rightarrow> Inl err
           | Inr t \<Rightarrow>
               if sublist ''error'' c \<or> sublist ''error'' t then check_checkout_events es
               else if sublist ''cancel'' c \<or> sublist ''cancel'' t then check_checkout_events es
               else if sublist ''place order'' t then Inr True
               else check_checkout_events es))"

definition is_successful_checkout :: "event list \<Rightarrow> error + bool" where
  "is_successful_checkout evs =
     (let checkout_events = filter (\<lambda>e. path e = ''/checkout'') evs in
      if checkout_events = [] then Inr False else check_checkout_events checkout_events)"

section \<open>Flow analysis\<close>

record flow =
  flow_user_id :: string
  flow_session_id :: string
  path_sequence :: "string list"
  flow_events :: "event list"

record abandoned_flow = flow +
  last_path :: "string option"

text \<open>
  One round of the loop of \<open>analyze_flows\<close>; the state is \<open>successful_checkouts\<close>,
  \<open>abandoned_flows\<close> and \<open>path_sequences\<close>. An error of \<open>_is_successful_checkout\<close> ends the
  loop.
\<close>

definition classify_session ::
  "flow list \<times> abandoned_flow list \<times> string list list \<Rightarrow> string \<times> string \<times> event list \<Rightarrow>
   error + flow list \<times> abandoned_flow list \<times> string list list" where
  "classify_session acc item =
     (case (acc, item) of
        ((successful, abandoned, seqs), (u, s, evs)) \<Rightarrow>
          (let path_seq = map path evs in
           case is_successful_checkout evs of
             Inl err \<Rightarrow> Inl err
           | Inr True \<Rightarrow>
               Inr (successful @ [\<lparr>flow_user_id = u, flow_session_id = s,
                                    path_sequence = path_seq, flow_events = evs\<rparr>],
                    abandoned, seqs @ [path_seq])
           | Inr False \<Rightarrow>
               Inr (successful,
                    abandoned @ [\<lparr>flow_user_id = u, flow_session_id = s,
                                   path_sequence = path_seq, flow_events = evs,
                                   last_path =
                                     (if path_seq \<noteq> [] then Some (last path_seq) else None)\<rparr>],
                    seqs @ [path_seq])))"

fun classify_loop ::
  "flow list \<times> abandoned_flow list \<times> string list list \<Rightarrow>
   (string \<times> string \<times> event list) list \<Rightarrow>
   error + flow list \<times> abandoned_flow list \<times> string list list" where
  "classify_loop acc [] = Inr acc"
| "classify_loop acc (item # items) =
     (case classify_session acc item of
        Inl err \<Rightarrow> Inl err
      | Inr acc' \<Rightarrow> classify_loop acc' items)"

definition classify_sessions ::
  "grouped \<Rightarrow> error + flow list \<times> abandoned_flow list \<times> string list list" where
  "classify_sessions g = classify_loop ([], [], []) (session_items g)"

text \<open>The percentage \<open>f"{a / b * 100:.1f}%"\<close>.\<close>

definition percent :: "nat \<Rightarrow> nat \<Rightarrow> string" where
  "percent a b = fmt1 (real a / real b * 100) @ ''%''"

definition successful_paths :: "flow list \<Rightarrow> string list" where
  "successful_paths successful = map (\<lambda>f. join arrow (path_sequence f)) successful"

definition success_finding :: "flow list \<Rightarrow> string list list \<Rightarrow> finding" where
  "success_finding successful seqs =
     \<lparr>title = ''Successful Purchase Flows'',
      description = ''Found '' @ str_nat (length successful) @ '' successful checkout sessions'',
      severity = None,
      details =
        [(''total_successful'', VNat (length successful)),
         (''most_common_patterns'', VCounts (most_common 3 (Counter (successful_paths successful)))),
         (''conversion_rate'', VStr (percent (length successful) (length seqs)))]\<rparr>"

text \<open>
  \<open>[flow['last_path'] for flow in abandoned_flows if flow['last_path']]\<close>: the test is
  Python's truth value, false for \<open>None\<close> and for the empty string.
\<close>

definition truthy :: "string option \<Rightarrow> bool" where
  "truthy v = (case v of None \<Rightarrow> False | Some s \<Rightarrow> s \<noteq> [])"

definition exit_paths :: "abandoned_flow list \<Rightarrow> string list" where
  "exit_paths abandoned =
     map (\<lambda>f. get_or [] (last_path f)) (filter (\<lambda>f. truthy (last_path f)) abandoned)"

definition abandonment_points :: "abandoned_flow list \<Rightarrow> (string \<times> nat) list" where
  "abandonment_points abandoned = Counter (exit_paths abandoned)"

definition abandonment_finding :: "abandoned_flow list \<Rightarrow> string list list \<Rightarrow> finding" where
  "abandonment_finding abandoned seqs =
     \<lparr>title = ''Flow Abandonment Patterns'',
      description = ''Analyzed '' @ str_nat (length abandoned) @ '' abandoned sessions'',
      severity = None,
      details =
        [(''total_abandoned'', VNat (length abandoned)),
         (''common_exit_points'', VCounts (most_common 5 (abandonment_points abandoned))),
         (''abandonment_rate'', VStr (percent (length abandoned) (length seqs)))]\<rparr>"

text \<open>\<open>Counter([seq[0] for seq in path_sequences if seq])\<close>\<close>

definition entry_paths :: "string list list \<Rightarrow> string list" where
  "entry_paths seqs = map hd (filter (\<lambda>seq. seq \<noteq> []) seqs)"

definition entry_points :: "string list list \<Rightarrow> (string \<times> nat) list" where
  "entry_points seqs = Counter (entry_paths seqs)"

definition entry_finding :: "string list list \<Rightarrow> finding" where
  "entry_finding seqs =
     \<lparr>title = ''User Entry Points'',
      description = ''Most common starting pages for user sessions'',
      severity = None,
      details = [(''top_entry_points'', VCounts (most_common 5 (entry_points seqs)))]\<rparr>"

definition analyze_flow_patterns ::
  "flow list \<Rightarrow> abandoned_flow list \<Rightarrow> string list list \<Rightarrow> finding list \<Rightarrow> finding list" where
  "analyze_flow_patterns successful abandoned seqs fl =
     (let fl1 = (if successful \<noteq> [] then fl @ [success_finding successful seqs] else fl);
          fl2 = (if abandoned \<noteq> [] then fl1 @ [abandonment_finding abandoned seqs] else fl1)
      in fl2 @ [entry_finding seqs])"

subsection \<open>Products\<close>

text \<open>
  \<open>products_in_session\<close> is a Python \<open>set\<close>. The order in which a set of strings is
  iterated follows the hashes of the strings, which change from one run to the next; the
  language promises only that every element comes once. The iteration is the parameter
  \<open>iter\<close>: from the paths in the order they were added, the order they are visited in.
\<close>

type_synonym set_iter = "string list \<Rightarrow> string list"

definition valid_set_iter :: "set_iter \<Rightarrow> bool" where
  "valid_set_iter iter \<longleftrightarrow> (\<forall>xs. distinct (iter xs) \<and> set (iter xs) = set xs)"

definition products_in_session :: "event list \<Rightarrow> string list" where
  "products_in_session evs = filter (prefix ''/products/'') (map path evs)"

definition count_session_products ::
  "set_iter \<Rightarrow> (string \<times> nat) list \<Rightarrow> event list \<Rightarrow> (string \<times> nat) list" where
  "count_session_products iter c evs = foldl counter_incr c (iter (products_in_session evs))"

definition product_sessions :: "set_iter \<Rightarrow> grouped \<Rightarrow> (string \<times> nat) list" where
  "product_sessions iter g = foldl (count_session_products iter) [] (session_events g)"

definition total_product_sessions :: "(string \<times> nat) list \<Rightarrow> nat" where
  "total_product_sessions c = sum_list (map snd c)"

definition product_finding :: "(string \<times> nat) list \<Rightarrow> finding" where
  "product_finding c =
     \<lparr>title = ''Most Consulted Products'',
      description = ''Analysis of products viewed across '' @ str_nat (total_product_sessions c)
                    @ '' user sessions'',
      severity = None,
      details =
        [(''total_product_sessions'', VNat (total_product_sessions c)),
         (''unique_products'', VNat (length c)),
         (''top_products'', VCounts (most_common 10 c))]\<rparr>"

definition analyze_product_insights :: "set_iter \<Rightarrow> grouped \<Rightarrow> finding list \<Rightarrow> finding list" where
  "analyze_product_insights iter g fl =
     (let c = product_sessions iter g in if c \<noteq> [] then fl @ [product_finding c] else fl)"

subsection \<open>Page activity\<close>

text \<open>
  The loop over the adjacent pairs of one session. A text that does not parse is skipped
  (\<open>ValueError\<close> is caught); the \<open>TypeError\<close> of a subtraction is not caught.
\<close>

fun session_durations ::
  "iso_parser \<Rightarrow> (string \<times> real list) list \<Rightarrow> event list \<Rightarrow> error + (string \<times> real list) list" where
  "session_durations fromiso pd (e1 # e2 # es) =
     (case parse_time fromiso (event_time e1) of
        None \<Rightarrow> session_durations fromiso pd (e2 # es)
      | Some current_time \<Rightarrow>
          (case parse_time fromiso (event_time e2) of
             None \<Rightarrow> session_durations fromiso pd (e2 # es)
           | Some next_time \<Rightarrow>
               (case dt_sub next_time current_time of
                  Inl err \<Rightarrow> Inl err
                | Inr delta \<Rightarrow>
                    (let duration_seconds = total_seconds delta in
                     if 0 < duration_seconds \<and> duration_seconds < 1800
                     then session_durations fromiso
                            (dd_update (path e1) [] (\<lambda>ds. ds @ [duration_seconds]) pd) (e2 # es)
                     else session_durations fromiso pd (e2 # es)))))"
| "session_durations fromiso pd _ = Inr pd"

fun page_durations ::
  "iso_parser \<Rightarrow> (string \<times> real list) list \<Rightarrow> event list list \<Rightarrow> error + (string \<times> real list) list" where
  "page_durations fromiso pd [] = Inr pd"
| "page_durations fromiso pd (evs # rest) =
     (case session_durations fromiso pd evs of
        Inl err \<Rightarrow> Inl err
      | Inr pd' \<Rightarrow> page_durations fromiso pd' rest)"

definition page_avg_durations :: "(string \<times> real list) list \<Rightarrow> (string \<times> real) list" where
  "page_avg_durations pd = map (\<lambda>(p, ds). (p, mean ds)) (filter (\<lambda>(p, ds). ds \<noteq> []) pd)"

text \<open>\<open>sorted(page_avg_durations.items(), key=lambda x: x[1], reverse=True)\<close>\<close>

definition sorted_pages :: "(string \<times> real) list \<Rightarrow> (string \<times> real) list" where
  "sorted_pages avgs = sort_key (\<lambda>kv. - snd kv) avgs"

definition activity_finding :: "(string \<times> real) list \<Rightarrow> finding" where
  "activity_finding avgs =
     \<lparr>title = ''Pages with Longest Activity'',
      description = ''Analysis of user time spent on '' @ str_nat (length (sorted_pages avgs))
                    @ '' different pages'',
      severity = None,
      details =
        [(''total_pages_analyzed'', VNat (length (sorted_pages avgs))),
         (''longest_activity_pages'',
            VPages (map (\<lambda>(p, d). (p, fmt1 d @ ''s'')) (take 10 (sorted_pages avgs)))),
         (''average_page_time'', VStr (fmt1 (mean (map snd avgs)) @ ''s''))]\<rparr>"

definition analyze_page_activity ::
  "iso_parser \<Rightarrow> grouped \<Rightarrow> finding list \<Rightarrow> error + finding list" where
  "analyze_page_activity fromiso g fl =
     (case page_durations fromiso [] (session_events g) of
        Inl err \<Rightarrow> Inl err
      | Inr pd \<Rightarrow>
          (let avgs = page_avg_durations pd in
           Inr (if avgs \<noteq> [] then fl @ [activity_finding avgs] else fl)))"

definition analyze_flows :: "iso_parser \<Rightarrow> set_iter \<Rightarrow> analyzer \<Rightarrow> error + analyzer" where
  "analyze_flows fromiso iter a =
     (case classify_sessions (user_sessions a) of
        Inl err \<Rightarrow> Inl err
      | Inr (successful, abandoned, seqs) \<Rightarrow>
          (let fl1 = analyze_flow_patterns successful abandoned seqs (flows a);
               fl2 = analyze_product_insights iter (user_sessions a) fl1
           in case analyze_page_activity fromiso (user_sessions a) fl2 of
                Inl err \<Rightarrow> Inl err
              | Inr fl3 \<Rightarrow> Inr (a\<lparr>flows := fl3\<rparr>)))"

section \<open>Anomaly detection\<close>

subsection \<open>Long gaps\<close>

text \<open>The loop \<open>for i in range(1, len(events))\<close> of one session.\<close>

fun session_gaps ::
  "iso_parser \<Rightarrow> string \<Rightarrow> string \<Rightarrow> gap list \<Rightarrow> event list \<Rightarrow> error + gap list" where
  "session_gaps fromiso u s gaps (e1 # e2 # es) =
     (case parse_time fromiso (event_time e1) of
        None \<Rightarrow> session_gaps fromiso u s gaps (e2 # es)
      | Some prev_time \<Rightarrow>
          (case parse_time fromiso (event_time e2) of
             None \<Rightarrow> session_gaps fromiso u s gaps (e2 # es)
           | Some curr_time \<Rightarrow>
               (case dt_sub curr_time prev_time of
                  Inl err \<Rightarrow> Inl err
                | Inr delta \<Rightarrow>
                    (let gap_seconds = total_seconds delta in
                     if 300 < gap_seconds
                     then session_gaps fromiso u s
                            (gaps @ [\<lparr>gap_user_id = u, gap_session_id = s,
                                      gap_minutes = gap_seconds / 60,
                                      stuck_on_page = path e1, next_page = path e2\<rparr>])
                            (e2 # es)
                     else session_gaps fromiso u s gaps (e2 # es)))))"
| "session_gaps fromiso u s gaps _ = Inr gaps"

fun long_gaps ::
  "iso_parser \<Rightarrow> gap list \<Rightarrow> (string \<times> string \<times> event list) list \<Rightarrow> error + gap list" where
  "long_gaps fromiso gaps [] = Inr gaps"
| "long_gaps fromiso gaps ((u, s, evs) # rest) =
     (if length evs < 2 then long_gaps fromiso gaps rest
      else (case session_gaps fromiso u s gaps evs of
              Inl err \<Rightarrow> Inl err
            | Inr gaps' \<Rightarrow> long_gaps fromiso gaps' rest))"

definition page_gaps :: "gap list \<Rightarrow> (string \<times> gap list) list" where
  "page_gaps gaps = foldl (\<lambda>pg g. dd_update (stuck_on_page g) [] (\<lambda>gs. gs @ [g]) pg) [] gaps"

definition sorted_gaps :: "gap list \<Rightarrow> gap list" where
  "sorted_gaps gaps = sort_key (\<lambda>g. - gap_minutes g) gaps"

definition gaps_finding :: "(string \<times> gap list) list \<Rightarrow> gap list \<Rightarrow> finding" where
  "gaps_finding pg gaps =
     \<lparr>title = ''User Confusion / Long Delays'',
      description = ''Found '' @ str_nat (length gaps)
                    @ '' instances of users spending >5 minutes on a page'',
      severity = Some (if 10 < length gaps then ''High'' else ''Medium''),
      details =
        [(''total_instances'', VNat (length gaps)),
         (''average_gap'', VStr (fmt1 (mean (map gap_minutes gaps)) @ '' minutes'')),
         (''longest_gap'',
            VStr (fmt1 (foldl max (gap_minutes (hd gaps)) (map gap_minutes (tl gaps)))
                  @ '' minutes'')),
         (''page_specific_issues'', VPageGaps pg),
         (''examples'', VGaps (take 3 gaps))]\<rparr>"

text \<open>
  The gaps are grouped by page first, then \<open>long_gaps\<close> is sorted in place (stable,
  longest first), and the finding is built from the sorted list.
\<close>

definition detect_time_gaps :: "iso_parser \<Rightarrow> grouped \<Rightarrow> finding list \<Rightarrow> error + finding list" where
  "detect_time_gaps fromiso g an =
     (case long_gaps fromiso [] (session_items g) of
        Inl err \<Rightarrow> Inl err
      | Inr gaps \<Rightarrow>
          Inr (if gaps \<noteq> [] then an @ [gaps_finding (page_gaps gaps) (sorted_gaps gaps)]
               else an))"

subsection \<open>Error keywords\<close>

definition error_keywords :: "string list" where
  "error_keywords = [''error'', ''404'', ''timeout'', ''failed'', ''invalid'', ''missing'']"

definition has_error_keyword :: "event \<Rightarrow> error + bool" where
  "has_error_keyword e =
     (case lower_value (get_value [] (css e)) of
        Inl err \<Rightarrow> Inl err
      | Inr c \<Rightarrow>
          (case lower_value (get_value [] (ev_text e)) of
             Inl err \<Rightarrow> Inl err
           | Inr t \<Rightarrow>
               Inr (list_ex (\<lambda>keyword. sublist keyword c \<or> sublist keyword t) error_keywords)))"

definition error_info_of :: "event \<Rightarrow> error_info" where
  "error_info_of e =
     \<lparr>err_event = e, error_type = ''CSS/Text contains error keywords'',
      err_text = get_value ''N/A'' (ev_text e), err_css = get_value ''N/A'' (css e)\<rparr>"

text \<open>The loop over \<open>self.events\<close>; the state is \<open>error_events\<close> and \<open>page_errors\<close>.\<close>

fun scan_errors ::
  "error_info list \<times> (string \<times> error_info list) list \<Rightarrow> event list \<Rightarrow>
   error + error_info list \<times> (string \<times> error_info list) list" where
  "scan_errors acc [] = Inr acc"
| "scan_errors (error_events, page_errors) (e # es) =
     (case has_error_keyword e of
        Inl err \<Rightarrow> Inl err
      | Inr True \<Rightarrow>
          scan_errors
            (error_events @ [error_info_of e],
             dd_update (path e) [] (\<lambda>infos. infos @ [error_info_of e]) page_errors)
            es
      | Inr False \<Rightarrow> scan_errors (error_events, page_errors) es)"

definition errors_finding ::
  "error_info list \<Rightarrow> (string \<times> error_info list) list \<Rightarrow> finding" where
  "errors_finding error_events page_errors =
     \<lparr>title = ''Technical Errors'',
      description = ''Found '' @ str_nat (length error_events)
                    @ '' events with error-related keywords'',
      severity = Some ''High'',
      details =
        [(''total_errors'', VNat (length error_events)),
         (''page_specific_errors'', VPageErrors page_errors)]\<rparr>"

definition detect_error_patterns :: "event list \<Rightarrow> finding list \<Rightarrow> error + finding list" where
  "detect_error_patterns evs an =
     (case scan_errors ([], []) evs of
        Inl err \<Rightarrow> Inl err
      | Inr (error_events, page_errors) \<Rightarrow>
          Inr (if error_events \<noteq> [] then an @ [errors_finding error_events page_errors]
               else an))"

subsection \<open>Unusual session length\<close>

text \<open>\<open>_calculate_session_duration\<close>: here too only \<open>ValueError\<close> is caught.\<close>

definition calculate_session_duration :: "iso_parser \<Rightarrow> event list \<Rightarrow> error + real" where
  "calculate_session_duration fromiso evs =
     (if length evs < 2 then Inr 0
      else (case parse_time fromiso (event_time (hd evs)) of
              None \<Rightarrow> Inr 0
            | Some start_time \<Rightarrow>
                (case parse_time fromiso (event_time (last evs)) of
                   None \<Rightarrow> Inr 0
                 | Some end_time \<Rightarrow>
                     (case dt_sub end_time start_time of
                        Inl err \<Rightarrow> Inl err
                      | Inr delta \<Rightarrow> Inr (total_seconds delta / 60)))))"

definition session_lengths :: "grouped \<Rightarrow> nat list" where
  "session_lengths g = map length (session_events g)"

definition session_threshold :: "nat list \<Rightarrow> real" where
  "session_threshold lens =
     (if 1 < length lens then mean (map real lens) + 2 * stdev (map real lens)
      else mean (map real lens) * 2)"

fun unusual_sessions ::
  "iso_parser \<Rightarrow> real \<Rightarrow> unusual_session list \<Rightarrow> (string \<times> string \<times> event list) list \<Rightarrow>
   error + unusual_session list" where
  "unusual_sessions fromiso threshold acc [] = Inr acc"
| "unusual_sessions fromiso threshold acc ((u, s, evs) # rest) =
     (if threshold < real (length evs) then
        (case calculate_session_duration fromiso evs of
           Inl err \<Rightarrow> Inl err
         | Inr d \<Rightarrow>
             unusual_sessions fromiso threshold
               (acc @ [\<lparr>un_user_id = u, un_session_id = s, event_count = length evs,
                        duration_minutes = d\<rparr>])
               rest)
      else unusual_sessions fromiso threshold acc rest)"

definition unusual_finding :: "real \<Rightarrow> real \<Rightarrow> unusual_session list \<Rightarrow> finding" where
  "unusual_finding avg_length threshold unusual =
     \<lparr>title = ''Unusual Session Activity'',
      description = ''Found '' @ str_nat (length unusual)
                    @ '' sessions with unusually high activity'',
      severity = Some ''Medium'',
      details =
        [(''average_session_length'', VStr (fmt1 avg_length @ '' events'')),
         (''threshold'', VStr (fmt1 threshold @ '' events'')),
         (''unusual_sessions'', VSessions (take 5 unusual))]\<rparr>"

definition detect_unusual_behaviors ::
  "iso_parser \<Rightarrow> grouped \<Rightarrow> finding list \<Rightarrow> error + finding list" where
  "detect_unusual_behaviors fromiso g an =
     (let lens = session_lengths g in
      if lens \<noteq> [] then
        (let avg_length = mean (map real lens); threshold = session_threshold lens in
         case unusual_sessions fromiso threshold [] (session_items g) of
           Inl err \<Rightarrow> Inl err
         | Inr unusual \<Rightarrow>
             Inr (if unusual \<noteq> [] then an @ [unusual_finding avg_length threshold unusual]
                  else an))
      else Inr an)"

definition detect_anomalies :: "iso_parser \<Rightarrow> analyzer \<Rightarrow> error + analyzer" where
  "detect_anomalies fromiso a =
     (case detect_time_gaps fromiso (user_sessions a) (anomalies a) of
        Inl err \<Rightarrow> Inl err
      | Inr an1 \<Rightarrow>
          (case detect_error_patterns (events a) an1 of
             Inl err \<Rightarrow> Inl err
           | Inr an2 \<Rightarrow>
               (case detect_unusual_behaviors fromiso (user_sessions a) an2 of
                  Inl err \<Rightarrow> Inl err
                | Inr an3 \<Rightarrow> Inr (a\<lparr>anomalies := an3\<rparr>))))"

text \<open>
  \<open>run_analysis\<close> up to the report: load, group, analyse the flows, detect the anomalies.
\<close>

definition run_analysis :: "iso_parser \<Rightarrow> set_iter \<Rightarrow> raw_event list \<Rightarrow> error + analyzer" where
  "run_analysis fromiso iter raws =
     (case analyze_flows fromiso iter (process_events (load_data fromiso raws new_analyzer)) of
        Inl err \<Rightarrow> Inl err
      | Inr a \<Rightarrow> detect_anomalies fromiso a)"

section \<open>A reading of ISO texts\<close>

text \<open>
  For concrete inputs, the library's \<open>datetime.fromisoformat\<close> on the texts
  \<open>YYYY-MM-DD?HH:MM:SS\<close>, with or without an offset \<open>+HH:MM\<close> or \<open>-HH:MM\<close> (the \<open>?\<close> is any
  one character). The library reads more formats than these; here they are \<open>None\<close>.
  The value counts microseconds from the start of year 1, as the library's ordinal does.
\<close>

definition digit_val :: "char \<Rightarrow> nat option" where
  "digit_val c =
     (if CHR ''0'' \<le> c \<and> c \<le> CHR ''9'' then Some (of_char c - (48::nat)) else None)"

fun number_from :: "nat \<Rightarrow> string \<Rightarrow> nat option" where
  "number_from acc [] = Some acc"
| "number_from acc (c # cs) =
     (case digit_val c of None \<Rightarrow> None | Some d \<Rightarrow> number_from (10 * acc + d) cs)"

definition is_leap :: "nat \<Rightarrow> bool" where
  "is_leap y \<longleftrightarrow> y mod 4 = 0 \<and> (y mod 100 \<noteq> 0 \<or> y mod 400 = 0)"

definition days_in_month :: "nat \<Rightarrow> nat \<Rightarrow> nat" where
  "days_in_month y m =
     (if m = 2 then (if is_leap y then 29 else 28)
      else if m = 4 \<or> m = 6 \<or> m = 9 \<or> m = 11 then 30 else 31)"

definition days_before_year :: "nat \<Rightarrow> nat" where
  "days_before_year y = (y - 1) * 365 + (y - 1) div 4 - (y - 1) div 100 + (y - 1) div 400"

definition days_before_month :: "nat \<Rightarrow> nat \<Rightarrow> nat" where
  "days_before_month y m = sum_list (map (days_in_month y) [1..<m])"

definition parse_date :: "string \<Rightarrow> nat option" where
  "parse_date s =
     (case (number_from 0 (take 4 s), number_from 0 (take 2 (drop 5 s)),
            number_from 0 (take 2 (drop 8 s))) of
        (Some y, Some m, Some d) \<Rightarrow>
          (if length s = 10 \<and> s ! 4 = CHR ''-'' \<and> s ! 7 = CHR ''-'' \<and>
              1 \<le> y \<and> 1 \<le> m \<and> m \<le> 12 \<and> 1 \<le> d \<and> d \<le> days_in_month y m
           then Some (days_before_year y + days_before_month y m + d)
           else None)
      | _ \<Rightarrow> None)"

definition parse_hms :: "string \<Rightarrow> nat option" where
  "parse_hms s =
     (case (number_from 0 (take 2 s), number_from 0 (take 2 (drop 3 s)),
            number_from 0 (take 2 (drop 6 s))) of
        (Some h, Some m, Some sec) \<Rightarrow>
          (if length s = 8 \<and> s ! 2 = CHR '':'' \<and> s ! 5 = CHR '':'' \<and>
              h < 24 \<and> m < 60 \<and> sec < 60
           then Some ((h * 60 + m) * 60 + sec)
           else None)
      | _ \<Rightarrow> None)"

definition parse_offset :: "string \<Rightarrow> int option" where
  "parse_offset s =
     (case (number_from 0 (take 2 (drop 1 s)), number_from 0 (take 2 (drop 4 s))) of
        (Some h, Some m) \<Rightarrow>
          (if length s = 6 \<and> (s ! 0 = CHR ''+'' \<or> s ! 0 = CHR ''-'') \<and> s ! 3 = CHR '':'' \<and>
              h < 24 \<and> m < 60
           then Some ((if s ! 0 = CHR ''-'' then - 1 else 1) * int ((h * 60 + m) * 60))
           else None)
      | _ \<Rightarrow> None)"

definition fromisoformat :: iso_parser where
  "fromisoformat s =
     (if length s = 19 \<or> length s = 25 then
        (case (parse_date (take 10 s), parse_hms (take 8 (drop 11 s))) of
           (Some d, Some t) \<Rightarrow>
             (let wall = (int d * 86400 + int t) * 1000000 in
              if length s = 19 then Some (Naive wall)
              else (case parse_offset (drop 19 s) of
                      None \<Rightarrow> None
                    | Some off \<Rightarrow> Some (Aware (wall - off * 1000000))))
         | _ \<Rightarrow> None)
      else None)"

text \<open>Two iteration orders that a set may have.\<close>

definition iter_first :: set_iter where
  "iter_first xs = rev (remdups (rev xs))"


section \<open>Notions for stating the properties\<close>



text \<open>No user without a session, no session without an event.\<close>

definition nonempty_groups :: "grouped \<Rightarrow> bool" where
  "nonempty_groups g = list_all (\<lambda>(u, ss). ss \<noteq> [] \<and> list_all (\<lambda>(s, evs). evs \<noteq> []) ss) g"

text \<open>The microsecond count of a \<open>datetime\<close>, and whether it carries an offset.\<close>

fun instant :: "datetime \<Rightarrow> int" where
  "instant (Naive t) = t"
| "instant (Aware t) = t"

fun is_aware :: "datetime \<Rightarrow> bool" where
  "is_aware (Naive t) = False"
| "is_aware (Aware t) = True"

text \<open>Whether the timestamp of an event parses, and whether it parses to an aware value.\<close>

definition aware_event :: "iso_parser \<Rightarrow> event \<Rightarrow> bool" where
  "aware_event fromiso e =
     (case parse_time fromiso (event_time e) of None \<Rightarrow> False | Some d \<Rightarrow> is_aware d)"

definition parses :: "iso_parser \<Rightarrow> event \<Rightarrow> bool" where
  "parses fromiso e \<longleftrightarrow> parse_time fromiso (event_time e) \<noteq> None"

text \<open>A property that holds of every event of the grouped structure.\<close>

definition all_events :: "(event \<Rightarrow> bool) \<Rightarrow> grouped \<Rightarrow> bool" where
  "all_events P g = list_all (\<lambda>(u, ss). list_all (\<lambda>(s, evs). list_all P evs) ss) g"

text \<open>
  The duration of a session in the words of the specification: last event time minus first
  event time, in minutes, and 0 for fewer than two events.
\<close>

definition session_minutes :: "iso_parser \<Rightarrow> event list \<Rightarrow> real" where
  "session_minutes fromiso evs =
     (if length evs < 2 then 0
      else (case (parse_time fromiso (event_time (hd evs)),
                  parse_time fromiso (event_time (last evs))) of
              (Some start_time, Some end_time) \<Rightarrow>
                real_of_int (instant end_time - instant start_time) / 1000000 / 60
            | _ \<Rightarrow> 0))"

text \<open>The entry that the detector records for a flagged session.\<close>

definition flag_session :: "iso_parser \<Rightarrow> string \<times> string \<times> event list \<Rightarrow> unusual_session" where
  "flag_session fromiso item =
     (case item of (u, s, evs) \<Rightarrow>
        \<lparr>un_user_id = u, un_session_id = s, event_count = length evs,
         duration_minutes = session_minutes fromiso evs\<rparr>)"

text \<open>An optional key that is absent or holds a string, and the string it counts as.\<close>

definition is_text :: "jvalue option \<Rightarrow> bool" where
  "is_text v \<longleftrightarrow> (case v of None \<Rightarrow> True | Some (JStr s) \<Rightarrow> True | Some _ \<Rightarrow> False)"

definition text_of :: "jvalue option \<Rightarrow> string" where
  "text_of v = (case v of Some (JStr s) \<Rightarrow> s | _ \<Rightarrow> [])"

text \<open>The distinct elements of a list, in the order of their first occurrence.\<close>

definition first_seen :: "string list \<Rightarrow> string list" where
  "first_seen xs = rev (remdups (rev xs))"


section \<open>Sample inputs\<close>

definition raw_ev :: "string \<Rightarrow> string \<Rightarrow> string \<Rightarrow> string \<Rightarrow> jvalue option \<Rightarrow> raw_event" where
  "raw_ev u s t p txt =
     \<lparr>raw_user_id = Some u, raw_session_id = Some s, raw_event_time = Some t, raw_path = Some p,
      raw_css = None, raw_text = txt\<rparr>"

definition ev :: "string \<Rightarrow> string \<Rightarrow> string \<Rightarrow> string \<Rightarrow> jvalue option \<Rightarrow> event" where
  "ev u s t p txt =
     \<lparr>user_id = u, session_id = s, event_time = t, path = p, css = None, ev_text = txt\<rparr>"

definition grouped_of :: "raw_event list \<Rightarrow> grouped" where
  "grouped_of raws = user_sessions (process_events (load_data fromisoformat raws new_analyzer))"

definition null_text_input :: "raw_event list" where
  "null_text_input =
     [raw_ev ''u1'' ''s1'' ''2024-01-01T10:00:00Z'' ''/checkout'' (Some JNull),
      raw_ev ''u1'' ''s1'' ''2024-01-01T10:01:00Z'' ''/checkout'' (Some (JStr ''place order''))]"

definition empty_path_input :: "raw_event list" where
  "empty_path_input = [raw_ev ''u1'' ''s1'' ''2024-01-01T10:00:00Z'' [] None]"

definition two_products_input :: "raw_event list" where
  "two_products_input =
     [raw_ev ''u1'' ''s1'' ''2024-01-01T10:00:00Z'' ''/products/1'' None,
      raw_ev ''u1'' ''s1'' ''2024-01-01T10:00:30Z'' ''/products/2'' None]"

definition mixed_offsets_input :: "raw_event list" where
  "mixed_offsets_input =
     [raw_ev ''u1'' ''s1'' ''2024-01-01T10:00:00+05:00'' ''/home'' None,
      raw_ev ''u1'' ''s1'' ''2024-01-01T08:00:00Z'' ''/cart'' None]"

definition naive_aware_input :: "raw_event list" where
  "naive_aware_input =
     [raw_ev ''u1'' ''s1'' ''2024-01-01T10:00:00'' ''/home'' None,
      raw_ev ''u1'' ''s1'' ''2024-01-01T10:00:05Z'' ''/cart'' None,
      raw_ev ''u1'' ''s1'' ''2024-01-01T10:00:10Z'' ''/checkout'' None]"


section \<open>Evaluation rules\<close>

lemmas iso_defs =
  fromisoformat_def parse_date_def parse_hms_def parse_offset_def digit_val_def
  days_before_year_def days_before_month_def days_in_month_def is_leap_def
  parse_time_def replace_Z_def

lemmas load_defs =
  grouped_of_def load_data_def load_event_def is_valid_event_def new_analyzer_def raw_ev_def
  List.map_filter_simps process_events_def sort_events_def add_event_def
  session_items_def session_events_def

lemmas flow_defs =
  classify_sessions_def classify_session_def get_value_def analyze_flows_def analyze_flow_patterns_def
  analyze_product_insights_def product_sessions_def count_session_products_def
  products_in_session_def analyze_page_activity_def page_avg_durations_def
  is_successful_checkout_def entry_finding_def entry_points_def entry_paths_def Counter_def
  counter_incr_def most_common_def abandonment_points_def exit_paths_def truthy_def get_or_def
  Let_def

lemmas anomaly_defs =
  detect_anomalies_def detect_time_gaps_def detect_error_patterns_def
  detect_unusual_behaviors_def session_lengths_def

section \<open>Grouping conserves the events\<close>











section \<open>No group is empty\<close>

lemma dd_update_all:
  assumes "list_all (\<lambda>(k, v). P v) kvs" and "\<And>v. P v \<Longrightarrow> P (f v)" and "P (f dflt)"
  shows "list_all (\<lambda>(k, v). P v) (dd_update k dflt f kvs)"
  using assms by (induction kvs) auto

lemma dd_update_not_Nil: "dd_update k dflt f kvs \<noteq> []"
  by (cases kvs) (auto split: if_splits)

lemma nonempty_groups_add_event: "nonempty_groups g \<Longrightarrow> nonempty_groups (add_event g e)"
  unfolding nonempty_groups_def add_event_def
  by (rule dd_update_all) (auto intro!: dd_update_all [where P = "\<lambda>evs. evs \<noteq> []"] simp: dd_update_not_Nil)

lemma nonempty_groups_foldl:
  "nonempty_groups g \<Longrightarrow> nonempty_groups (foldl add_event g evs)"
  by (induction evs arbitrary: g) (simp_all add: nonempty_groups_add_event)

lemma nonempty_groups_items:
  "nonempty_groups g \<Longrightarrow> (u, s, evs) \<in> set (session_items g) \<Longrightarrow> evs \<noteq> []"
  by (auto simp: nonempty_groups_def session_items_def list_all_iff)

lemma nonempty_groups_process:
  "nonempty_groups (user_sessions (process_events (load_data fromiso raws new_analyzer)))"
proof -
  have "nonempty_groups []" by (simp add: nonempty_groups_def)
  then show ?thesis
    by (simp add: process_events_def load_data_def new_analyzer_def nonempty_groups_foldl)
qed

text \<open>
  C10. After \<open>process_events\<close>, every (user, session) entry of the grouped structure holds
  at least one event, so that the session has a first and a last path.
\<close>

theorem groups_never_empty:
  "\<forall>(u, s, evs) \<in> set (session_items
       (user_sessions (process_events (load_data fromiso raws new_analyzer)))). evs \<noteq> []"
  using nonempty_groups_items [OF nonempty_groups_process] by blast

theorem groups_never_empty_witness:
  "(''u1'', ''s1'', [ev ''u1'' ''s1'' ''2024-01-01T10:00:00Z'' ''/home'' None])
     \<in> set (session_items (grouped_of [raw_ev ''u1'' ''s1'' ''2024-01-01T10:00:00Z'' ''/home'' None]))
   \<and> [ev ''u1'' ''s1'' ''2024-01-01T10:00:00Z'' ''/home'' None] \<noteq> []"
  using groups_never_empty
    [of fromisoformat "[raw_ev ''u1'' ''s1'' ''2024-01-01T10:00:00Z'' ''/home'' None]"]
  by (simp add: iso_defs load_defs ev_def)

section \<open>Checkout classification\<close>

lemma lower_value_text:
  "is_text v \<Longrightarrow> lower_value (get_value [] v) = Inr (lower (text_of v))"
  by (auto simp: is_text_def text_of_def get_value_def split: option.splits jvalue.splits)

lemma check_checkout_events_text:
  assumes "\<forall>e \<in> set es. is_text (css e) \<and> is_text (ev_text e)"
  shows "check_checkout_events es =
     Inr (\<exists>e \<in> set es.
        \<not> sublist ''error'' (lower (text_of (css e))) \<and>
        \<not> sublist ''error'' (lower (text_of (ev_text e))) \<and>
        \<not> sublist ''cancel'' (lower (text_of (css e))) \<and>
        \<not> sublist ''cancel'' (lower (text_of (ev_text e))) \<and>
        sublist ''place order'' (lower (text_of (ev_text e))))"
  using assms
proof (induction es)
  case Nil
  show ?case by simp
next
  case (Cons e es)
  from Cons.prems have c: "lower_value (get_value [] (css e)) = Inr (lower (text_of (css e)))"
    and t: "lower_value (get_value [] (ev_text e)) = Inr (lower (text_of (ev_text e)))"
    by (simp_all add: lower_value_text)
  from Cons.prems have "\<forall>e \<in> set es. is_text (css e) \<and> is_text (ev_text e)" by simp
  from Cons.IH [OF this] show ?case
    by (auto simp: c t)
qed

text \<open>
  On sessions whose checkout events hold strings (or nothing) under \<open>css\<close> and \<open>text\<close>, the
  classification is the one of the specification: successful exactly when some event has
  the path \<open>/checkout\<close>, neither \<open>error\<close> nor \<open>cancel\<close> in its lower-cased \<open>css\<close> and \<open>text\<close>,
  and \<open>place order\<close> in its lower-cased \<open>text\<close>.
\<close>

lemma successful_checkout_on_text:
  assumes "\<forall>e \<in> set evs. path e = ''/checkout'' \<longrightarrow> is_text (css e) \<and> is_text (ev_text e)"
  shows "is_successful_checkout evs =
     Inr (\<exists>e \<in> set evs.
        path e = ''/checkout'' \<and>
        \<not> sublist ''error'' (lower (text_of (css e))) \<and>
        \<not> sublist ''error'' (lower (text_of (ev_text e))) \<and>
        \<not> sublist ''cancel'' (lower (text_of (css e))) \<and>
        \<not> sublist ''cancel'' (lower (text_of (ev_text e))) \<and>
        sublist ''place order'' (lower (text_of (ev_text e))))"
proof -
  let ?ce = "filter (\<lambda>e. path e = ''/checkout'') evs"
  from assms have "\<forall>e \<in> set ?ce. is_text (css e) \<and> is_text (ev_text e)" by simp
  from check_checkout_events_text [OF this] show ?thesis
    unfolding is_successful_checkout_def Let_def
    by (auto simp: filter_empty_conv)
qed

lemma null_text_grouped:
  "session_items (grouped_of null_text_input) =
     [(''u1'', ''s1'',
       [ev ''u1'' ''s1'' ''2024-01-01T10:00:00Z'' ''/checkout'' (Some JNull),
        ev ''u1'' ''s1'' ''2024-01-01T10:01:00Z'' ''/checkout'' (Some (JStr ''place order''))])]"
  by (simp add: null_text_input_def iso_defs load_defs ev_def)

text \<open>
  C1. The claim asks that a session be successful exactly when one of its \<open>/checkout\<close>
  events passes the tests on \<open>css\<close> and \<open>text\<close>. In a session of two checkout events, the
  first with \<open>text\<close> set to \<open>null\<close> and the second with the text \<open>place order\<close>, the second
  event passes them, and alone it makes a successful session. With the first event before
  it, \<open>.get('text', '')\<close> returns the \<open>null\<close> and \<open>.lower()\<close> raises \<open>AttributeError\<close>: the
  classification returns nothing and the run stops.
\<close>

theorem checkout_null_text_raises:
  "session_items (grouped_of null_text_input) =
     [(''u1'', ''s1'',
       [ev ''u1'' ''s1'' ''2024-01-01T10:00:00Z'' ''/checkout'' (Some JNull),
        ev ''u1'' ''s1'' ''2024-01-01T10:01:00Z'' ''/checkout'' (Some (JStr ''place order''))])]
   \<and> is_successful_checkout
        [ev ''u1'' ''s1'' ''2024-01-01T10:01:00Z'' ''/checkout'' (Some (JStr ''place order''))]
       = Inr True
   \<and> is_successful_checkout
        [ev ''u1'' ''s1'' ''2024-01-01T10:00:00Z'' ''/checkout'' (Some JNull),
         ev ''u1'' ''s1'' ''2024-01-01T10:01:00Z'' ''/checkout'' (Some (JStr ''place order''))]
       = Inl AttributeError
   \<and> run_analysis fromisoformat iter null_text_input = Inl AttributeError"
proof -
  have one: "is_successful_checkout
        [ev ''u1'' ''s1'' ''2024-01-01T10:01:00Z'' ''/checkout'' (Some (JStr ''place order''))]
       = Inr True"
    by (simp add: is_successful_checkout_def ev_def get_value_def lower_def lower_char_def
        sublist_Cons_right)
  have two: "is_successful_checkout
        [ev ''u1'' ''s1'' ''2024-01-01T10:00:00Z'' ''/checkout'' (Some JNull),
         ev ''u1'' ''s1'' ''2024-01-01T10:01:00Z'' ''/checkout'' (Some (JStr ''place order''))]
       = Inl AttributeError"
    by (simp add: is_successful_checkout_def ev_def get_value_def)
  have "classify_sessions
          (user_sessions (process_events (load_data fromisoformat null_text_input new_analyzer)))
        = Inl AttributeError"
    using null_text_grouped two
    by (simp add: grouped_of_def classify_sessions_def classify_session_def)
  then have "run_analysis fromisoformat iter null_text_input = Inl AttributeError"
    by (simp add: run_analysis_def analyze_flows_def)
  with one two null_text_grouped show ?thesis by simp
qed

section \<open>The events are sorted as texts\<close>

text \<open>
  C3. The claim asks that every session be ordered by the instant its \<open>event_time\<close>
  denotes. \<open>process_events\<close> sorts by the text of \<open>event_time\<close>: of two events of one
  session at 10:00 with offset +05:00 (05:00 UTC) and at 08:00 UTC, the later instant
  comes first.
\<close>

theorem sorted_by_text_not_by_instant:
  "session_events (grouped_of mixed_offsets_input) =
     [[ev ''u1'' ''s1'' ''2024-01-01T08:00:00Z'' ''/cart'' None,
       ev ''u1'' ''s1'' ''2024-01-01T10:00:00+05:00'' ''/home'' None]]
   \<and> parse_time fromisoformat ''2024-01-01T08:00:00Z'' = Some (Aware 63839779200000000)
   \<and> parse_time fromisoformat ''2024-01-01T10:00:00+05:00'' = Some (Aware 63839768400000000)
   \<and> (63839768400000000 :: int) < 63839779200000000"
  by (simp add: mixed_offsets_input_def iso_defs load_defs ev_def)

section \<open>Findings on empty data\<close>

text \<open>
  C4. The claim asks that no step emits a finding for empty data, so that zero sessions
  give zero findings. The entry point step has no emptiness test: with no record at all
  the run ends with one finding, \<open>User Entry Points\<close>, whose list is empty.
\<close>

theorem zero_sessions_one_finding:
  "run_analysis fromiso iter [] =
     Inr \<lparr>events = [], user_sessions = [],
          flows = [\<lparr>title = ''User Entry Points'',
                    description = ''Most common starting pages for user sessions'',
                    severity = None,
                    details = [(''top_entry_points'', VCounts [])]\<rparr>],
          anomalies = []\<rparr>"
  by (simp add: run_analysis_def load_defs flow_defs anomaly_defs)

section \<open>What the product total counts\<close>

text \<open>
  C2. The claim asks that \<open>total_product_sessions\<close> be the number of sessions that viewed a
  product. It is the sum of the per-product counts: one session that views two products
  gives 2.
\<close>

theorem product_total_counts_views:
  "length (session_events (grouped_of two_products_input)) = 1
   \<and> product_sessions iter_first (grouped_of two_products_input)
       = [(''/products/1'', 1), (''/products/2'', 1)]
   \<and> map_of (details (product_finding (product_sessions iter_first (grouped_of two_products_input))))
        ''total_product_sessions'' = Some (VNat 2)"
  by (simp add: two_products_input_def iso_defs load_defs flow_defs iter_first_def
      product_finding_def total_product_sessions_def)

section \<open>Exit points and the empty path\<close>

text \<open>
  C9. The claim asks that the exit point counts add up to the number of abandoned
  sessions, also for a last path that is the empty string. The exit point list keeps a
  last path only when it is true in Python's sense, so the empty path is dropped, while
  the entry point list keeps it.
\<close>

theorem empty_exit_path_not_counted:
  "classify_sessions (grouped_of empty_path_input) =
     Inr ([],
          [\<lparr>flow_user_id = ''u1'', flow_session_id = ''s1'', path_sequence = [[]],
            flow_events = [ev ''u1'' ''s1'' ''2024-01-01T10:00:00Z'' [] None],
            last_path = Some []\<rparr>],
          [[[]]])
   \<and> abandonment_points
        [\<lparr>flow_user_id = ''u1'', flow_session_id = ''s1'', path_sequence = [[]],
          flow_events = [ev ''u1'' ''s1'' ''2024-01-01T10:00:00Z'' [] None],
          last_path = Some []\<rparr>] = []
   \<and> entry_points [[[]]] = [([], 1)]"
  by (simp add: empty_path_input_def iso_defs load_defs flow_defs ev_def)

section \<open>Timestamps with and without offset in one session\<close>

lemma naive_aware_grouped:
  "session_events (grouped_of naive_aware_input) =
     [[ev ''u1'' ''s1'' ''2024-01-01T10:00:00'' ''/home'' None,
       ev ''u1'' ''s1'' ''2024-01-01T10:00:05Z'' ''/cart'' None,
       ev ''u1'' ''s1'' ''2024-01-01T10:00:10Z'' ''/checkout'' None]]"
  by (simp add: naive_aware_input_def iso_defs load_defs ev_def)

text \<open>
  C6. The claim asks that every adjacent pair whose delta lies strictly between 0 and 1800
  seconds be attributed to the earlier page. For a session whose first timestamp has no
  offset and whose next two have one, the third event follows the second by 5 seconds,
  but the subtraction for the first pair raises \<open>TypeError\<close>, which the handler of the
  loop does not catch: nothing is attributed and the analysis stops.
\<close>

theorem page_activity_type_error:
  "session_events (grouped_of naive_aware_input) =
     [[ev ''u1'' ''s1'' ''2024-01-01T10:00:00'' ''/home'' None,
       ev ''u1'' ''s1'' ''2024-01-01T10:00:05Z'' ''/cart'' None,
       ev ''u1'' ''s1'' ''2024-01-01T10:00:10Z'' ''/checkout'' None]]
   \<and> parse_time fromisoformat ''2024-01-01T10:00:00'' = Some (Naive 63839786400000000)
   \<and> parse_time fromisoformat ''2024-01-01T10:00:05Z'' = Some (Aware 63839786405000000)
   \<and> parse_time fromisoformat ''2024-01-01T10:00:10Z'' = Some (Aware 63839786410000000)
   \<and> analyze_page_activity fromisoformat (grouped_of naive_aware_input) fl = Inl TypeError
   \<and> run_analysis fromisoformat iter naive_aware_input = Inl TypeError"
proof -
  have act: "analyze_page_activity fromisoformat (grouped_of naive_aware_input) fl = Inl TypeError"
    for fl
    unfolding analyze_page_activity_def naive_aware_grouped
    by (simp add: iso_defs ev_def)
  have "\<exists>r. classify_sessions (grouped_of naive_aware_input) = Inr r"
    by (simp add: naive_aware_input_def iso_defs load_defs flow_defs ev_def)
  then have "analyze_flows fromisoformat iter
          (process_events (load_data fromisoformat naive_aware_input new_analyzer)) = Inl TypeError"
    unfolding analyze_flows_def
    using act by (auto simp: grouped_of_def Let_def split: prod.splits)
  then have run: "run_analysis fromisoformat iter naive_aware_input = Inl TypeError"
    by (simp add: run_analysis_def)
  show ?thesis
    using act run naive_aware_grouped by (simp add: iso_defs)
qed

section \<open>Unusual session length\<close>

lemma dt_sub_Inr: "dt_sub b a = Inr d \<longleftrightarrow> is_aware a = is_aware b \<and> d = instant b - instant a"
  by (cases a; cases b) auto

lemma dt_sub_same: "is_aware a = is_aware b \<Longrightarrow> dt_sub b a = Inr (instant b - instant a)"
  by (simp add: dt_sub_Inr)

lemma session_gaps_step:
  assumes "parse_time fromiso (event_time e1) = Some a"
    and "parse_time fromiso (event_time e2) = Some b"
  shows "session_gaps fromiso u s gaps (e1 # e2 # es) =
           (case dt_sub b a of
              Inl err \<Rightarrow> Inl err
            | Inr d \<Rightarrow>
                session_gaps fromiso u s
                  (if 300 < total_seconds d
                   then gaps @ [\<lparr>gap_user_id = u, gap_session_id = s,
                                 gap_minutes = total_seconds d / 60,
                                 stuck_on_page = path e1, next_page = path e2\<rparr>]
                   else gaps)
                  (e2 # es))"
  using assms by (simp add: Let_def split: sum.splits)

lemma session_gaps_same_kind:
  "list_all (parses fromiso) evs \<Longrightarrow> session_gaps fromiso u s gaps evs = Inr r \<Longrightarrow>
   \<forall>e \<in> set evs. aware_event fromiso e = aware_event fromiso (hd evs)"
proof (induction evs arbitrary: gaps)
  case Nil
  show ?case by simp
next
  case (Cons e1 rest)
  note IH = Cons.IH and all = Cons.prems(1) and ret = Cons.prems(2)
  show ?case
  proof (cases rest)
    case Nil
    then show ?thesis by simp
  next
    case (Cons e2 es)
    from all Cons obtain a b where
      a: "parse_time fromiso (event_time e1) = Some a" and
      b: "parse_time fromiso (event_time e2) = Some b"
      by (auto simp: parses_def)
    from ret obtain d gaps' where
      d: "dt_sub b a = Inr d" and
      rec: "session_gaps fromiso u s gaps' rest = Inr r"
      unfolding Cons session_gaps_step [OF a b] by (cases "dt_sub b a") auto
    from d have kind: "aware_event fromiso e2 = aware_event fromiso e1"
      by (simp add: aware_event_def a b dt_sub_Inr)
    from all have "list_all (parses fromiso) rest" by simp
    from IH [OF this rec] have "\<forall>e \<in> set rest. aware_event fromiso e = aware_event fromiso e2"
      by (simp add: Cons)
    with kind show ?thesis by simp
  qed
qed

lemma all_events_add_event: "all_events P g \<Longrightarrow> P e \<Longrightarrow> all_events P (add_event g e)"
  unfolding all_events_def add_event_def
  by (rule dd_update_all) (auto intro!: dd_update_all [where P = "list_all P"])

lemma all_events_foldl:
  "all_events P g \<Longrightarrow> list_all P evs \<Longrightarrow> all_events P (foldl add_event g evs)"
  by (induction evs arbitrary: g) (simp_all add: all_events_add_event)

lemma all_events_items:
  "all_events P g \<Longrightarrow> (u, s, evs) \<in> set (session_items g) \<Longrightarrow> list_all P evs"
  by (fastforce simp: all_events_def session_items_def list_all_iff)

lemma load_event_parses: "load_event fromiso r = Some e \<Longrightarrow> parses fromiso e"
  by (auto simp: load_event_def is_valid_event_def parses_def split: option.splits if_splits)

lemma map_filter_load_parses: "list_all (parses fromiso) (List.map_filter (load_event fromiso) raws)"
  by (induction raws) (auto simp: List.map_filter_simps load_event_parses split: option.splits)

lemma all_events_process:
  "all_events (parses fromiso)
     (user_sessions (process_events (load_data fromiso raws new_analyzer)))"
proof -
  have "all_events (parses fromiso) []" by (simp add: all_events_def)
  moreover have "list_all (parses fromiso) (sort_events (List.map_filter (load_event fromiso) raws))"
    using map_filter_load_parses [of fromiso raws] by (simp add: sort_events_def list_all_iff)
  ultimately show ?thesis
    by (simp add: process_events_def load_data_def new_analyzer_def all_events_foldl)
qed

lemma long_gaps_same_kind:
  "long_gaps fromiso gaps items = Inr r \<Longrightarrow>
   \<forall>(u, s, evs) \<in> set items. list_all (parses fromiso) evs \<Longrightarrow>
   \<forall>(u, s, evs) \<in> set items. \<forall>e \<in> set evs. aware_event fromiso e = aware_event fromiso (hd evs)"
proof (induction items arbitrary: gaps)
  case Nil
  show ?case by simp
next
  case (Cons item items)
  obtain u s evs where item: "item = (u, s, evs)" by (cases item)
  from Cons.prems(2) have all: "list_all (parses fromiso) evs"
    and all_rest: "\<forall>(u, s, evs) \<in> set items. list_all (parses fromiso) evs"
    by (simp_all add: item)
  have "\<exists>gaps'. long_gaps fromiso gaps' items = Inr r \<and>
          (\<forall>e \<in> set evs. aware_event fromiso e = aware_event fromiso (hd evs))"
  proof (cases "length evs < 2")
    case True
    then have "\<forall>e \<in> set evs. e = hd evs"
      by (cases evs) auto
    then have "\<forall>e \<in> set evs. aware_event fromiso e = aware_event fromiso (hd evs)" by auto
    moreover from Cons.prems(1) True have "long_gaps fromiso gaps items = Inr r"
      by (simp add: item)
    ultimately show ?thesis by blast
  next
    case False
    with Cons.prems(1) obtain gaps' where
      g: "session_gaps fromiso u s gaps evs = Inr gaps'" and
      l: "long_gaps fromiso gaps' items = Inr r"
      by (cases "session_gaps fromiso u s gaps evs") (simp_all add: item)
    from session_gaps_same_kind [OF all g] l show ?thesis by blast
  qed
  then obtain gaps' where l: "long_gaps fromiso gaps' items = Inr r"
    and k: "\<forall>e \<in> set evs. aware_event fromiso e = aware_event fromiso (hd evs)"
    by blast
  from Cons.IH [OF l all_rest] k show ?case by (simp add: item)
qed

lemma calculate_session_duration_minutes:
  assumes "list_all (parses fromiso) evs"
    and "\<forall>e \<in> set evs. aware_event fromiso e = aware_event fromiso (hd evs)"
  shows "calculate_session_duration fromiso evs = Inr (session_minutes fromiso evs)"
proof (cases "length evs < 2")
  case True
  then show ?thesis by (simp add: calculate_session_duration_def session_minutes_def)
next
  case False
  then have ne: "evs \<noteq> []" by auto
  then have mem: "hd evs \<in> set evs" "last evs \<in> set evs" by simp_all
  from assms(1) mem have "parses fromiso (hd evs)" "parses fromiso (last evs)"
    by (simp_all add: list_all_iff)
  then obtain a b where
    a: "parse_time fromiso (event_time (hd evs)) = Some a" and
    b: "parse_time fromiso (event_time (last evs)) = Some b"
    unfolding parses_def by blast
  from assms(2) mem(2) have "aware_event fromiso (last evs) = aware_event fromiso (hd evs)"
    by blast
  then have "is_aware b = is_aware a" by (simp add: aware_event_def a b)
  then have s: "dt_sub b a = Inr (instant b - instant a)"
    by (simp add: dt_sub_Inr)
  show ?thesis
    unfolding calculate_session_duration_def session_minutes_def
    using False by (simp add: a b s total_seconds_def)
qed

lemma unusual_sessions_flagged:
  assumes "\<forall>(u, s, evs) \<in> set items. list_all (parses fromiso) evs \<and>
             (\<forall>e \<in> set evs. aware_event fromiso e = aware_event fromiso (hd evs))"
  shows "unusual_sessions fromiso threshold acc items =
           Inr (acc @ map (flag_session fromiso)
                       (filter (\<lambda>(u, s, evs). threshold < real (length evs)) items))"
  using assms
proof (induction items arbitrary: acc)
  case Nil
  show ?case by simp
next
  case (Cons item items)
  obtain u s evs where item: "item = (u, s, evs)" by (cases item)
  from Cons.prems have "list_all (parses fromiso) evs"
    and "\<forall>e \<in> set evs. aware_event fromiso e = aware_event fromiso (hd evs)"
    by (simp_all add: item)
  then have d: "calculate_session_duration fromiso evs = Inr (session_minutes fromiso evs)"
    by (rule calculate_session_duration_minutes)
  from Cons.prems have rest: "\<forall>(u, s, evs) \<in> set items. list_all (parses fromiso) evs \<and>
             (\<forall>e \<in> set evs. aware_event fromiso e = aware_event fromiso (hd evs))" by simp
  show ?case
  proof (cases "threshold < real (length evs)")
    case True
    then show ?thesis
      using Cons.IH [OF rest, of "acc @ [flag_session fromiso item]"]
      by (simp add: item d flag_session_def)
  next
    case False
    then show ?thesis
      using Cons.IH [OF rest, of acc] by (simp add: item)
  qed
qed

lemma session_lengths_items:
  "map real (session_lengths g) = map (\<lambda>(u, s, evs). real (length evs)) (session_items g)"
  by (simp add: session_lengths_def session_events_def comp_def case_prod_unfold)

lemma session_threshold_formula:
  "session_threshold (session_lengths g) =
     (let lens = map (\<lambda>(u, s, evs). real (length evs)) (session_items g);
          n = length lens;
          avg = sum_list lens / real n
      in if 2 \<le> n
         then avg + 2 * sqrt (sum_list (map (\<lambda>x. (x - avg)\<^sup>2) lens) / (real n - 1))
         else avg * 2)"
proof -
  have len: "length (session_lengths g) = length (session_items g)"
    by (simp add: session_lengths_def session_events_def)
  have two: "1 < length (session_items g) \<longleftrightarrow> 2 \<le> length (session_items g)"
    by auto
  show ?thesis
    unfolding session_threshold_def mean_def stdev_def Let_def session_lengths_items len
    by (simp only: length_map two)
qed

text \<open>
  When the gap detector has returned on the grouped events of a run, no session mixes
  timestamps with and without offset, and the detector of unusual sessions does what the
  specification says: the threshold is the mean of the session lengths plus twice their
  sample standard deviation when there are at least two sessions, and twice the mean
  otherwise; the flagged sessions are exactly those with more events than the threshold; a
  finding is added only when a session is flagged, with severity Medium; the duration of a
  flagged session is its last event time minus its first, in minutes.
\<close>

lemma unusual_sessions_after_gaps:
  assumes g: "g = user_sessions (process_events (load_data fromiso raws new_analyzer))"
    and gaps: "detect_time_gaps fromiso g an0 = Inr an1"
  shows
    "(let lens = map (\<lambda>(u, s, evs). real (length evs)) (session_items g);
          n = length lens;
          avg = sum_list lens / real n;
          threshold =
            (if 2 \<le> n
             then avg + 2 * sqrt (sum_list (map (\<lambda>x. (x - avg)\<^sup>2) lens) / (real n - 1))
             else avg * 2);
          flagged = map (flag_session fromiso)
                      (filter (\<lambda>(u, s, evs). threshold < real (length evs)) (session_items g))
      in detect_unusual_behaviors fromiso g an
           = Inr (if flagged = [] then an else an @ [unusual_finding avg threshold flagged])
         \<and> severity (unusual_finding avg threshold flagged) = Some ''Medium''
         \<and> map_of (details (unusual_finding avg threshold flagged)) ''unusual_sessions''
             = Some (VSessions (take 5 flagged)))"
proof -
  let ?items = "session_items g"
  have parse: "\<forall>(u, s, evs) \<in> set ?items. list_all (parses fromiso) evs"
    using all_events_items [OF all_events_process [of fromiso raws]] unfolding g by blast
  from gaps obtain gs where lg: "long_gaps fromiso [] ?items = Inr gs"
    by (cases "long_gaps fromiso [] ?items") (simp_all add: detect_time_gaps_def)
  note kind = long_gaps_same_kind [OF lg parse]
  have cond: "\<forall>(u, s, evs) \<in> set ?items. list_all (parses fromiso) evs \<and>
             (\<forall>e \<in> set evs. aware_event fromiso e = aware_event fromiso (hd evs))"
    using parse kind by fastforce
  have fl: "unusual_sessions fromiso th [] ?items =
              Inr (map (flag_session fromiso)
                     (filter (\<lambda>(u, s, evs). th < real (length evs)) ?items))" for th
    using unusual_sessions_flagged [OF cond, of th "[]"] by simp
  have avg: "mean (map real (session_lengths g)) =
               sum_list (map (\<lambda>(u, s, evs). real (length evs)) ?items) / real (length ?items)"
    by (simp add: mean_def session_lengths_items)
  have empty: "session_lengths g = [] \<longleftrightarrow> ?items = []"
    by (simp add: session_lengths_def session_events_def)
  have sev: "severity (unusual_finding a th fs) = Some ''Medium''"
    and det: "map_of (details (unusual_finding a th fs)) ''unusual_sessions''
                = Some (VSessions (take 5 fs))" for a th fs
    by (simp_all add: unusual_finding_def)
  show ?thesis
  proof (cases "?items = []")
    case True
    then show ?thesis
      by (simp add: detect_unusual_behaviors_def empty sev det Let_def)
  next
    case False
    then show ?thesis
      using session_threshold_formula [of g]
      by (simp add: detect_unusual_behaviors_def empty sev det fl avg Let_def)
  qed
qed




section \<open>Top lists\<close>

lemma first_seen_Nil: "first_seen [] = []"
  by (simp add: first_seen_def)

lemma first_seen_snoc:
  "first_seen (xs @ [k]) = (if k \<in> set xs then first_seen xs else first_seen xs @ [k])"
  by (simp add: first_seen_def)

lemma distinct_first_seen: "distinct (first_seen xs)"
  by (simp add: first_seen_def)

lemma set_first_seen: "set (first_seen xs) = set xs"
  by (simp add: first_seen_def)

lemma dd_update_keys:
  assumes "distinct ks"
  shows "dd_update k dflt f (map (\<lambda>k'. (k', h k')) ks) =
           (if k \<in> set ks then map (\<lambda>k'. (k', if k' = k then f (h k) else h k')) ks
            else map (\<lambda>k'. (k', h k')) ks @ [(k, f dflt)])"
  using assms by (induction ks) auto

lemma counter_incr_counts:
  "counter_incr (map (\<lambda>k. (k, count_list xs k)) (first_seen xs)) x =
     map (\<lambda>k. (k, count_list (xs @ [x]) k)) (first_seen (xs @ [x]))"
proof (cases "x \<in> set xs")
  case True
  then show ?thesis
    unfolding counter_incr_def
    by (simp add: dd_update_keys [OF distinct_first_seen] set_first_seen first_seen_snoc)
next
  case False
  then have "count_list xs x = 0" by (simp add: count_list_0_iff)
  with False show ?thesis
    unfolding counter_incr_def
    by (auto simp: dd_update_keys [OF distinct_first_seen] set_first_seen first_seen_snoc)
qed

lemma foldl_counter_incr:
  "foldl counter_incr (map (\<lambda>k. (k, count_list xs k)) (first_seen xs)) ys =
     map (\<lambda>k. (k, count_list (xs @ ys) k)) (first_seen (xs @ ys))"
proof (induction ys arbitrary: xs)
  case Nil
  show ?case by simp
next
  case (Cons y ys)
  show ?case
    using Cons.IH [of "xs @ [y]"] by (simp add: counter_incr_counts)
qed

lemma Counter_counts: "Counter xs = map (\<lambda>k. (k, count_list xs k)) (first_seen xs)"
  using foldl_counter_incr [of "[]" xs] by (simp add: Counter_def first_seen_Nil)





lemma foldl_count_session_products:
  "foldl (count_session_products iter) c sess =
     foldl counter_incr c (concat (map (\<lambda>evs. iter (products_in_session evs)) sess))"
  by (induction sess arbitrary: c) (simp_all add: count_session_products_def)

lemma product_sessions_Counter:
  "product_sessions iter g =
     Counter (concat (map (\<lambda>evs. iter (products_in_session evs)) (session_events g)))"
  by (simp add: product_sessions_def Counter_def foldl_count_session_products)






section \<open>What the counters add up to\<close>

text \<open>
  The counts of a \<open>Counter\<close> add up to the length of the counted list. So the product total
  counts the pairs of a session and a distinct product viewed in it, the entry point counts
  add up to the number of sessions with an event, and the exit point counts add up to the
  number of abandoned sessions whose last path is neither missing nor empty.
\<close>

lemma sum_counts_Counter: "sum_list (map snd (Counter xs)) = length xs"
proof -
  have "sum_list (map snd (Counter xs)) = sum_list (map (count_list xs) (first_seen xs))"
    by (simp add: Counter_counts comp_def)
  also have "\<dots> = sum (count_list xs) (set (first_seen xs))"
    by (rule sum_list_distinct_conv_sum_set) (rule distinct_first_seen)
  also have "\<dots> = length xs"
    by (simp add: set_first_seen sum_count_set)
  finally show ?thesis .
qed

lemma total_product_sessions_pairs:
  assumes "valid_set_iter iter"
  shows "total_product_sessions (product_sessions iter g) =
           sum_list (map (\<lambda>evs. card (set (products_in_session evs))) (session_events g))"
proof -
  have len: "length (iter xs) = card (set xs)" for xs
    using assms distinct_card [of "iter xs"] by (simp add: valid_set_iter_def)
  show ?thesis
    by (simp add: total_product_sessions_def product_sessions_Counter sum_counts_Counter
        length_concat comp_def len)
qed

lemma entry_points_total:
  "sum_list (map snd (entry_points seqs)) = length (filter (\<lambda>seq. seq \<noteq> []) seqs)"
  by (simp add: entry_points_def entry_paths_def sum_counts_Counter)

lemma abandonment_points_total:
  "sum_list (map snd (abandonment_points abandoned)) =
     length (filter (\<lambda>f. last_path f \<noteq> None \<and> last_path f \<noteq> Some []) abandoned)"
proof -
  have "truthy v \<longleftrightarrow> v \<noteq> None \<and> v \<noteq> Some []" for v
    by (cases v) (simp_all add: truthy_def)
  then show ?thesis
    by (simp add: abandonment_points_def exit_paths_def sum_counts_Counter)
qed

end
